theory Spec2Isabelle
  imports Main "HOL-Library.AList"
begin

section \<open>Data model\<close>

text \<open>
  The class \<^verbatim>\<open>DFA\<close> fixes no type for its state and symbol labels, so the record takes
  the label type \<open>'l\<close> as a parameter. The execution engine and the URL grammar only
  compare labels; they are stated at the reference data's labels, Python strings
  (\<open>string DFA\<close>). The persistence code also formats labels into text, so it is stated at
  \<open>py_value\<close>, the labels it can be handed that JSON writes and reads back unchanged:
  strings and integers.

  Iterating over a Python \<^verbatim>\<open>str\<close> yields one-character strings, so a symbol is itself
  a string and an input is a list of symbols; \<open>iter_str\<close> turns a string into the sequence
  its iteration yields.

  A Python \<^verbatim>\<open>set\<close> is a HOL set. A Python \<^verbatim>\<open>dict\<close> keeps insertion order, which the
  persistence code exposes through \<^verbatim>\<open>.items()\<close>, so a dict is an association list with
  \<open>map_of\<close> for lookup and \<open>AList.update\<close> for \<^verbatim>\<open>d[k] = v\<close>.
\<close>

type_synonym state = string
type_synonym symbol = string
type_synonym 'l transitions = "(('l \<times> 'l) \<times> 'l) list"

datatype py_error =
    ValueError string
  | KeyError "state \<times> symbol"

record 'l DFA =
  states :: "'l set"
  alphabet :: "'l set"
  transition_function :: "'l transitions"
  start_state :: 'l
  accept_states :: "'l set"

datatype py_value = PyStr string | PyInt int

text \<open>
  \<^verbatim>\<open>f"{x}"\<close>: a string is inserted as it is, an integer in decimal with a leading
  minus sign when negative.
\<close>

definition digit_char :: "nat \<Rightarrow> char" where
  "digit_char d = ''0123456789'' ! d"

fun str_of_nat :: "nat \<Rightarrow> string" where
  "str_of_nat n =
     (if n < 10 then [digit_char n]
      else str_of_nat (n div 10) @ [digit_char (n mod 10)])"

definition str_of_int :: "int \<Rightarrow> string" where
  "str_of_int i = (if i < 0 then ''-'' @ str_of_nat (nat (- i)) else str_of_nat (nat i))"

fun py_str :: "py_value \<Rightarrow> string" where
  "py_str (PyStr s) = s"
| "py_str (PyInt i) = str_of_int i"

definition iter_str :: "string \<Rightarrow> symbol list" where
  "iter_str s = map (\<lambda>c. [c]) s"

text \<open>\<^verbatim>\<open>d[k]\<close>: raises \<^verbatim>\<open>KeyError\<close> on a missing key.\<close>

definition dict_get :: "string transitions \<Rightarrow> state \<times> symbol \<Rightarrow> py_error + state" where
  "dict_get d k = (case map_of d k of None \<Rightarrow> Inl (KeyError k) | Some v \<Rightarrow> Inr v)"

section \<open>dfa_simulator.py: class DFA\<close>

text \<open>
  \<^verbatim>\<open>DFA.__init__\<close> stores its five arguments. It contains no check and no
  \<^verbatim>\<open>raise\<close>: the error branch of the result is never taken.
\<close>

definition DFA_init ::
  "'l set \<Rightarrow> 'l set \<Rightarrow> 'l transitions \<Rightarrow> 'l \<Rightarrow> 'l set \<Rightarrow> py_error + 'l DFA" where
  "DFA_init sts alph tf start acc =
     Inr \<lparr>states = sts, alphabet = alph, transition_function = tf,
          start_state = start, accept_states = acc\<rparr>"

text \<open>
  \<^verbatim>\<open>DFA.process_string\<close>. The loop state is \<open>current_state\<close> and \<open>state_sequence\<close>; the
  object \<open>self\<close> is threaded through and returned next to the result, so that what a call
  does to the automaton is part of the model. \<open>Inl\<close> is the raised exception.
\<close>

fun process_loop ::
  "string DFA \<Rightarrow> state \<Rightarrow> state list \<Rightarrow> symbol list \<Rightarrow>
     (py_error + bool \<times> state list) \<times> string DFA" where
  "process_loop self current_state state_sequence [] =
     (Inr (current_state \<in> accept_states self, state_sequence), self)"
| "process_loop self current_state state_sequence (symbol # rest) =
     (if symbol \<notin> alphabet self then
        (Inl (ValueError (''Symbol '' @ [CHR 0x27] @ symbol @ [CHR 0x27] @ '' not in alphabet'')), self)
      else if map_of (transition_function self) (current_state, symbol) = None then
        (Inr (False, state_sequence), self)
      else
        (case dict_get (transition_function self) (current_state, symbol) of
           Inl e \<Rightarrow> (Inl e, self)
         | Inr next_state \<Rightarrow>
             process_loop self next_state (state_sequence @ [next_state]) rest))"

definition process_string ::
  "string DFA \<Rightarrow> symbol list \<Rightarrow> (py_error + bool \<times> state list) \<times> string DFA" where
  "process_string self input_string =
     process_loop self (start_state self) [start_state self] input_string"

text \<open>
  \<^verbatim>\<open>str.split(sep)\<close> with a one-character separator: every occurrence of the separator
  ends a part, so the result has one part more than the string has separators.
\<close>

fun str_split :: "char \<Rightarrow> string \<Rightarrow> string list" where
  "str_split sep [] = [] # []"
| "str_split sep (c # cs) =
     (if c = sep then [] # str_split sep cs
      else (case str_split sep cs of
              [] \<Rightarrow> [c] # []
            | part # parts \<Rightarrow> (c # part) # parts))"

text \<open>
  The JSON document that \<^verbatim>\<open>save_to_file\<close> dumps and \<^verbatim>\<open>load_from_file\<close> parses, as the
  parsed value: three arrays of labels, one object with string keys (in order) and label
  values, and one label. \<^verbatim>\<open>json.load\<close> after \<^verbatim>\<open>json.dump\<close> gives such a value back
  unchanged.
\<close>

record dfa_dict =
  json_states :: "py_value list"
  json_alphabet :: "py_value list"
  json_transition_function :: "(string \<times> py_value) list"
  json_start_state :: py_value
  json_accept_states :: "py_value list"

text \<open>
  \<^verbatim>\<open>DFA.save_to_file\<close>. \<^verbatim>\<open>list(s)\<close> lists a set in its iteration order, which Python
  leaves open: \<open>to_list\<close> is that order. The dict comprehension inserts the keys
  \<^verbatim>\<open>f"{state},{symbol}"\<close> one by one; the formatting turns both labels into text.
\<close>

definition save_to_file :: "(py_value set \<Rightarrow> py_value list) \<Rightarrow> py_value DFA \<Rightarrow> dfa_dict" where
  "save_to_file to_list self =
     \<lparr>json_states = to_list (states self),
      json_alphabet = to_list (alphabet self),
      json_transition_function =
        fold (\<lambda>((state, symbol), next_state) d.
                AList.update (py_str state @ '','' @ py_str symbol) next_state d)
             (transition_function self) [],
      json_start_state = start_state self,
      json_accept_states = to_list (accept_states self)\<rparr>"

text \<open>
  The loop of \<^verbatim>\<open>DFA.load_from_file\<close>: \<^verbatim>\<open>state, symbol = key.split(",")\<close> raises
  \<^verbatim>\<open>ValueError\<close> unless the key splits into exactly two parts. Both parts are strings,
  whatever the labels were before they were formatted.
\<close>

fun load_transitions ::
  "(string \<times> py_value) list \<Rightarrow> py_value transitions \<Rightarrow> py_error + py_value transitions" where
  "load_transitions [] tf = Inr tf"
| "load_transitions ((key, v) # rest) tf =
     (case str_split CHR '','' key of
        [state, symbol] \<Rightarrow>
          load_transitions rest (AList.update (PyStr state, PyStr symbol) v tf)
      | [_] \<Rightarrow> Inl (ValueError ''not enough values to unpack (expected 2, got 1)'')
      | _ \<Rightarrow> Inl (ValueError ''too many values to unpack (expected 2)''))"

definition load_from_file :: "dfa_dict \<Rightarrow> py_error + py_value DFA" where
  "load_from_file d =
     (let sts = set (json_states d);
          alph = set (json_alphabet d)
      in case load_transitions (json_transition_function d) [] of
           Inl e \<Rightarrow> Inl e
         | Inr tf \<Rightarrow>
             DFA_init sts alph tf (json_start_state d) (set (json_accept_states d)))"

section \<open>url_validator.py: class UrlDFA\<close>

text \<open>
  The string literals of \<^verbatim>\<open>UrlDFA.__init__\<close>. The alphabet is \<^verbatim>\<open>set(literal)\<close>, the set
  of the literal's one-character strings; each \<^verbatim>\<open>for char in self.alphabet\<close> loop runs
  over these characters, and \<^verbatim>\<open>char in '...'\<close> on a one-character string is membership
  of the character in the literal.
\<close>

definition alphabet_literal :: string where
  "alphabet_literal =
     ''abcdefghijklmnopqrstuvwxyzABCDEFGHIJKLMNOPQRSTUVWXYZ0123456789-._~:/?#[]@!$&'()*+,;=%''"

definition authority_literal :: string where
  "authority_literal =
     ''abcdefghijklmnopqrstuvwxyzABCDEFGHIJKLMNOPQRSTUVWXYZ0123456789-._''"

definition path_literal :: string where
  "path_literal =
     ''abcdefghijklmnopqrstuvwxyzABCDEFGHIJKLMNOPQRSTUVWXYZ0123456789-._~:/@!$&'()*+,;=%''"

definition query_literal :: string where
  "query_literal =
     ''abcdefghijklmnopqrstuvwxyzABCDEFGHIJKLMNOPQRSTUVWXYZ0123456789-._~:/?@!$&'()*+,;=%''"

definition fragment_literal :: string where
  "fragment_literal =
     ''abcdefghijklmnopqrstuvwxyzABCDEFGHIJKLMNOPQRSTUVWXYZ0123456789-._~:/?@!$&'()*+,;=%#''"

text \<open>The blocks of \<^verbatim>\<open>UrlDFA.__init__\<close> that fill the transition table, in source order.\<close>

definition start_transitions :: "string transitions \<Rightarrow> string transitions" where
  "start_transitions =
     fold (\<lambda>char tf.
             if char = CHR ''h'' then AList.update (''start'', [char]) ''scheme'' tf
             else AList.update (''start'', [char]) ''rejected'' tf)
          alphabet_literal"

definition scheme_transitions :: "string transitions \<Rightarrow> string transitions" where
  "scheme_transitions tf =
     fold (\<lambda>char tf.
             if char \<notin> set ''tps:'' then AList.update (''scheme'', [char]) ''rejected'' tf
             else tf)
          alphabet_literal
          (AList.update (''scheme'', '':'') ''scheme_separator''
            (AList.update (''scheme'', ''s'') ''scheme''
              (AList.update (''scheme'', ''p'') ''scheme''
                (AList.update (''scheme'', ''t'') ''scheme'' tf))))"

definition scheme_separator_transitions :: "string transitions \<Rightarrow> string transitions" where
  "scheme_separator_transitions tf =
     fold (\<lambda>char tf.
             if char \<notin> set ''/:'' then AList.update (''scheme_separator'', [char]) ''authority'' tf
             else tf)
          alphabet_literal
          (AList.update (''scheme_separator'', ''/'') ''scheme_separator'' tf)"

definition authority_transitions :: "string transitions \<Rightarrow> string transitions" where
  "authority_transitions =
     fold (\<lambda>char tf.
             if char \<in> set authority_literal then AList.update (''authority'', [char]) ''authority'' tf
             else if char = CHR ''/'' then AList.update (''authority'', [char]) ''path'' tf
             else if char = CHR ''?'' then AList.update (''authority'', [char]) ''query'' tf
             else if char = CHR ''#'' then AList.update (''authority'', [char]) ''fragment'' tf
             else AList.update (''authority'', [char]) ''rejected'' tf)
          alphabet_literal"

definition path_transitions :: "string transitions \<Rightarrow> string transitions" where
  "path_transitions =
     fold (\<lambda>char tf.
             if char \<in> set path_literal then AList.update (''path'', [char]) ''path'' tf
             else if char = CHR ''?'' then AList.update (''path'', [char]) ''query'' tf
             else if char = CHR ''#'' then AList.update (''path'', [char]) ''fragment'' tf
             else AList.update (''path'', [char]) ''rejected'' tf)
          alphabet_literal"

definition query_transitions :: "string transitions \<Rightarrow> string transitions" where
  "query_transitions =
     fold (\<lambda>char tf.
             if char \<in> set query_literal then AList.update (''query'', [char]) ''query'' tf
             else if char = CHR ''#'' then AList.update (''query'', [char]) ''fragment'' tf
             else AList.update (''query'', [char]) ''rejected'' tf)
          alphabet_literal"

definition fragment_transitions :: "string transitions \<Rightarrow> string transitions" where
  "fragment_transitions =
     fold (\<lambda>char tf.
             if char \<in> set fragment_literal then AList.update (''fragment'', [char]) ''fragment'' tf
             else AList.update (''fragment'', [char]) ''rejected'' tf)
          alphabet_literal"

text \<open>
  \<^verbatim>\<open>UrlDFA.__init__\<close>: the object has the same five attributes as a \<^verbatim>\<open>DFA\<close>.
\<close>

definition UrlDFA_init :: "string DFA" where
  "UrlDFA_init =
     \<lparr>states = {''start'', ''scheme'', ''scheme_separator'', ''authority'', ''path'',
                ''query'', ''fragment'', ''rejected''},
      alphabet = set (iter_str alphabet_literal),
      transition_function =
        fragment_transitions (query_transitions (path_transitions (authority_transitions
          (scheme_separator_transitions (scheme_transitions (start_transitions [])))))),
      start_state = ''start'',
      accept_states = {''authority'', ''path'', ''query'', ''fragment''}\<rparr>"

text \<open>
  \<^verbatim>\<open>UrlDFA.validate_url\<close>. It has no \<^verbatim>\<open>raise\<close>; the only operation that can raise is
  the dict lookup, kept as the \<open>Inl\<close> branch.
\<close>

fun validate_loop ::
  "string DFA \<Rightarrow> state \<Rightarrow> state list \<Rightarrow> symbol list \<Rightarrow> py_error + bool \<times> state list" where
  "validate_loop self current_state state_sequence [] =
     Inr (current_state \<in> accept_states self, state_sequence)"
| "validate_loop self current_state state_sequence (char # rest) =
     (if char \<notin> alphabet self then Inr (False, state_sequence @ [''rejected''])
      else if map_of (transition_function self) (current_state, char) = None then
        Inr (False, state_sequence @ [''rejected''])
      else
        (case dict_get (transition_function self) (current_state, char) of
           Inl e \<Rightarrow> Inl e
         | Inr next_state \<Rightarrow>
             if next_state = ''rejected'' then Inr (False, state_sequence @ [next_state])
             else validate_loop self next_state (state_sequence @ [next_state]) rest))"

definition validate_url :: "string DFA \<Rightarrow> symbol list \<Rightarrow> py_error + bool \<times> state list" where
  "validate_url self url = validate_loop self (start_state self) [start_state self] url"

section \<open>Preconditions and example automata\<close>

text \<open>
  The composite key \<^verbatim>\<open>f"{state},{symbol}"\<close> is split again at every comma and both
  parts come back as strings, so the persistence code can only give back keys whose state
  and symbol are strings that contain no comma.
\<close>

definition comma_free_string_keys :: "py_value transitions \<Rightarrow> bool" where
  "comma_free_string_keys tf \<longleftrightarrow>
     (\<forall>((state, symbol), next_state) \<in> set tf.
        case (state, symbol) of
          (PyStr q, PyStr s) \<Rightarrow> CHR '','' \<notin> set q \<and> CHR '','' \<notin> set s
        | _ \<Rightarrow> False)"

text \<open>An iteration order for sets: the members of \<open>s\<close> in the order of a given list.\<close>

definition list_in_order :: "'a list \<Rightarrow> 'a set \<Rightarrow> 'a list" where
  "list_in_order order s = filter (\<lambda>x. x \<in> s) order"

text \<open>
  Hand-built automata. \<open>ab\<close> has a partial transition table: only \<open>(q0, a)\<close> is defined.
  \<open>mixed_dfa\<close> has string keys and an integer among its states. \<open>comma_dfa\<close> satisfies
  the four structural invariants and has the comma as its only symbol. \<open>int_dfa\<close> is
  \<^verbatim>\<open>DFA({0, 1}, {'a'}, {(0, 'a'): 1}, 0, {1})\<close>, with integer states.
\<close>

definition ab :: "string DFA" where
  "ab = \<lparr>states = {''q0'', ''q1''}, alphabet = {''a'', ''b''},
         transition_function = [((''q0'', ''a''), ''q1'')],
         start_state = ''q0'', accept_states = {''q1''}\<rparr>"

definition mixed_dfa :: "py_value DFA" where
  "mixed_dfa = \<lparr>states = {PyStr ''q0'', PyInt 1}, alphabet = {PyStr ''a'', PyStr ''b''},
         transition_function = [((PyStr ''q0'', PyStr ''a''), PyInt 1)],
         start_state = PyStr ''q0'', accept_states = {PyInt 1}\<rparr>"

definition comma_dfa :: "py_value DFA" where
  "comma_dfa = \<lparr>states = {PyStr ''q''}, alphabet = {PyStr '',''},
         transition_function = [((PyStr ''q'', PyStr '',''), PyStr ''q'')],
         start_state = PyStr ''q'', accept_states = {PyStr ''q''}\<rparr>"

definition int_dfa :: "py_value DFA" where
  "int_dfa = \<lparr>states = {PyInt 0, PyInt 1}, alphabet = {PyStr ''a''},
         transition_function = [((PyInt 0, PyStr ''a''), PyInt 1)],
         start_state = PyInt 0, accept_states = {PyInt 1}\<rparr>"

section \<open>The execution engine\<close>

lemma process_loop_self:
  "snd (process_loop self cur seq w) = self"
  by (induction w arbitrary: cur seq) (auto simp: dict_get_def)

text \<open>
  A run that returns a trace with one state per consumed symbol has consumed its whole
  input; the loop then continues on any further input from the last state of that trace.
\<close>

lemma process_loop_append:
  "fst (process_loop a cur seq pre) = Inr (b, tr) \<Longrightarrow> length tr = length seq + length pre \<Longrightarrow>
   seq \<noteq> [] \<Longrightarrow> last seq = cur \<Longrightarrow>
   tr \<noteq> [] \<and> set pre \<subseteq> alphabet a \<and>
   process_loop a cur seq (pre @ w) = process_loop a (last tr) tr w"
proof (induction pre arbitrary: cur seq)
  case Nil
  then show ?case by simp
next
  case (Cons s pre)
  show ?case
  proof (cases "s \<in> alphabet a \<and> map_of (transition_function a) (cur, s) \<noteq> None")
    case True
    then obtain n where n: "map_of (transition_function a) (cur, s) = Some n" by auto
    with True Cons.prems have
      "fst (process_loop a n (seq @ [n]) pre) = Inr (b, tr)"
      by (simp add: dict_get_def)
    from Cons.IH [OF this] Cons.prems(2) True n show ?thesis
      by (simp add: dict_get_def)
  next
    case False
    with Cons.prems show ?thesis by (auto split: if_splits)
  qed
qed

lemma process_string_append:
  assumes "fst (process_string a pre) = Inr (b, tr)" and "length tr = Suc (length pre)"
  shows "process_string a (pre @ w) = process_loop a (last tr) tr w"
    and "set pre \<subseteq> alphabet a"
  using process_loop_append [of a "start_state a" "[start_state a]" pre b tr w] assms
  by (simp_all add: process_string_def)

lemma ab_run_a: "fst (process_string ab [''a'']) = Inr (True, [''q0'', ''q1''])"
  by (simp add: process_string_def ab_def dict_get_def)

text \<open>
  C6. For every automaton, running the empty input returns the verdict
  \<open>start_state \<in> accept_states\<close> and the trace consisting of the start state alone.
\<close>

theorem process_string_empty:
  "fst (process_string a []) = Inr (start_state a \<in> accept_states a, [start_state a])"
  by (simp add: process_string_def)

text \<open>
  C4. When a run has consumed \<open>pre\<close> completely (its trace \<open>tr\<close> has one state per
  symbol) and the next symbol \<open>s\<close> is in the alphabet but \<open>(last tr, s)\<close> has no entry in
  the transition function, \<^verbatim>\<open>process_string\<close> returns \<open>False\<close> with the trace \<open>tr\<close>
  accumulated so far, whatever input \<open>rest\<close> follows and whether or not the current state
  \<open>last tr\<close> is accepting.
\<close>

theorem process_string_undefined_transition:
  assumes "fst (process_string a pre) = Inr (b, tr)"
    and "length tr = Suc (length pre)"
    and "s \<in> alphabet a"
    and "map_of (transition_function a) (last tr, s) = None"
  shows "fst (process_string a (pre @ s # rest)) = Inr (False, tr)"
  using assms by (simp add: process_string_append(1))

theorem process_string_undefined_transition_witness:
  "fst (process_string ab [''a'']) = Inr (True, [''q0'', ''q1'']) \<and>
   length [''q0'', ''q1''] = Suc (length [''a'']) \<and> ''b'' \<in> alphabet ab \<and>
   map_of (transition_function ab) (last [''q0'', ''q1''], ''b'') = None \<and>
   ''q1'' \<in> accept_states ab \<and>
   fst (process_string ab ([''a''] @ ''b'' # [''a'', ''a''])) = Inr (False, [''q0'', ''q1''])"
proof -
  note 1 = ab_run_a
  have 2: "length [''q0'', ''q1''] = Suc (length [''a''])" by simp
  have 3: "''b'' \<in> alphabet ab" by (simp add: ab_def)
  have 4: "map_of (transition_function ab) (last [''q0'', ''q1''], ''b'') = None"
    by (simp add: ab_def)
  have 5: "''q1'' \<in> accept_states ab" by (simp add: ab_def)
  from process_string_undefined_transition [OF 1 2 3 4, of "[''a'', ''a'']"] 1 2 3 4 5
  show ?thesis by blast
qed

text \<open>
  C5, as the code has it. When a run has consumed \<open>pre\<close> completely (so every symbol of
  \<open>pre\<close> is in the alphabet and had a transition) and the next symbol \<open>s\<close> is outside the
  alphabet, \<^verbatim>\<open>process_string\<close> raises \<^verbatim>\<open>ValueError\<close> naming \<open>s\<close>; the automaton is
  unchanged by the failed call, and any later run on it gives what it would have given
  before.
\<close>

theorem process_string_unknown_symbol:
  assumes "fst (process_string a pre) = Inr (b, tr)"
    and "length tr = Suc (length pre)"
    and "s \<notin> alphabet a"
  shows "set pre \<subseteq> alphabet a
       \<and> fst (process_string a (pre @ s # rest)) =
           Inl (ValueError (''Symbol '' @ [CHR 0x27] @ s @ [CHR 0x27] @ '' not in alphabet''))
       \<and> snd (process_string a (pre @ s # rest)) = a
       \<and> process_string (snd (process_string a (pre @ s # rest))) w = process_string a w"
proof -
  have self: "snd (process_string a (pre @ s # rest)) = a"
    by (simp add: process_string_def process_loop_self)
  from assms show ?thesis
    by (simp add: process_string_append self)
qed

theorem process_string_unknown_symbol_witness:
  "fst (process_string ab [''a'']) = Inr (True, [''q0'', ''q1'']) \<and>
   length [''q0'', ''q1''] = Suc (length [''a'']) \<and> ''c'' \<notin> alphabet ab \<and>
   fst (process_string ab ([''a''] @ ''c'' # [''a''])) =
     Inl (ValueError (''Symbol '' @ [CHR 0x27] @ ''c'' @ [CHR 0x27] @ '' not in alphabet'')) \<and>
   snd (process_string ab ([''a''] @ ''c'' # [''a''])) = ab \<and>
   process_string (snd (process_string ab ([''a''] @ ''c'' # [''a'']))) [''a''] =
     process_string ab [''a'']"
proof -
  note 1 = ab_run_a
  have 2: "length [''q0'', ''q1''] = Suc (length [''a''])" by simp
  have 3: "''c'' \<notin> alphabet ab" by (simp add: ab_def)
  from process_string_unknown_symbol [OF 1 2 3, of "[''a'']" "[''a'']"] 1 2 3
  show ?thesis by blast
qed

text \<open>
  C5 as stated fails: an input can contain a symbol outside the alphabet and still not
  raise, because the run stops at an earlier undefined transition. In \<open>ab\<close> the pair
  \<open>(q0, b)\<close> has no entry, so the input \<open>b c\<close> returns \<open>False\<close> before \<open>c\<close> is looked at.
\<close>

theorem process_string_stops_before_unknown_symbol:
  "''c'' \<in> set [''b'', ''c''] \<and> ''c'' \<notin> alphabet ab \<and>
   fst (process_string ab [''b'', ''c'']) = Inr (False, [''q0''])"
  by (simp add: process_string_def ab_def)

text \<open>
  C7. \<^verbatim>\<open>process_string\<close> leaves the automaton as it was, field by field, and a second
  call on the automaton left by the first returns the same verdict and trace (or raises
  the same error).
\<close>

theorem process_string_pure:
  "snd (process_string a w) = a
   \<and> states (snd (process_string a w)) = states a
   \<and> alphabet (snd (process_string a w)) = alphabet a
   \<and> transition_function (snd (process_string a w)) = transition_function a
   \<and> start_state (snd (process_string a w)) = start_state a
   \<and> accept_states (snd (process_string a w)) = accept_states a
   \<and> fst (process_string (snd (process_string a w)) w) = fst (process_string a w)"
  by (simp add: process_string_def process_loop_self)

section \<open>Construction\<close>

text \<open>
  C1, as the code has it. \<^verbatim>\<open>DFA.__init__\<close> checks nothing: for every five arguments it
  returns an automaton whose fields are exactly those arguments.
\<close>

theorem DFA_init_stores_arguments:
  "\<exists>a. DFA_init sts alph tf start acc = Inr a
       \<and> states a = sts \<and> alphabet a = alph \<and> transition_function a = tf
       \<and> start_state a = start \<and> accept_states a = acc"
  by (simp add: DFA_init_def)

text \<open>
  C1 as stated fails: with the accept state \<open>q1\<close> absent from the states \<open>{q0}\<close>,
  construction returns an automaton and no error.
\<close>

theorem DFA_init_accepts_dangling_accept_state:
  "\<not> {''q1''} \<subseteq> {''q0''} \<and>
   DFA_init {''q0''} {''a''} [] ''q0'' {''q1''} =
     Inr \<lparr>states = {''q0''}, alphabet = {''a''}, transition_function = [],
          start_state = ''q0'', accept_states = {''q1''}\<rparr>"
  by (simp add: DFA_init_def)

section \<open>The persistence codec\<close>

lemma update_fresh:
  "k \<notin> fst ` set al \<Longrightarrow> AList.update k v al = al @ [(k, v)]"
  by (induction al) auto

lemma str_split_no_sep:
  "sep \<notin> set q \<Longrightarrow> str_split sep q = [q]"
  by (induction q) auto

lemma str_split_append:
  "sep \<notin> set q \<Longrightarrow> str_split sep (q @ sep # r) = q # str_split sep r"
  by (induction q) auto

lemma str_split_key:
  "CHR '','' \<notin> set q \<Longrightarrow> CHR '','' \<notin> set s \<Longrightarrow>
   str_split CHR '','' (q @ CHR '','' # s) = [q, s]"
  by (simp add: str_split_append str_split_no_sep)

lemma key_inject:
  assumes "CHR '','' \<notin> set q" "CHR '','' \<notin> set s" "CHR '','' \<notin> set q'" "CHR '','' \<notin> set s'"
    and "q @ '','' @ s = q' @ '','' @ s'"
  shows "q = q' \<and> s = s'"
proof -
  from assms(5) have "str_split CHR '','' (q @ CHR '','' # s) = str_split CHR '','' (q' @ CHR '','' # s')"
    by simp
  with assms(1-4) show ?thesis by (simp add: str_split_key)
qed

lemma comma_free_string_keysD:
  assumes "comma_free_string_keys tf" and "((state, symbol), n) \<in> set tf"
  shows "\<exists>q s. state = PyStr q \<and> symbol = PyStr s \<and> CHR '','' \<notin> set q \<and> CHR '','' \<notin> set s"
proof -
  from assms have "case (state, symbol) of
      (PyStr q, PyStr s) \<Rightarrow> CHR '','' \<notin> set q \<and> CHR '','' \<notin> set s | _ \<Rightarrow> False"
    unfolding comma_free_string_keys_def by blast
  then show ?thesis
    by (cases state; cases symbol) simp_all
qed

lemma comma_free_string_keys_Cons:
  "comma_free_string_keys (x # tf) \<Longrightarrow> comma_free_string_keys tf"
  by (simp add: comma_free_string_keys_def)

text \<open>
  With string keys free of commas, the formatted keys are pairwise different, so the dict
  comprehension appends one entry per transition, in order.
\<close>

lemma save_fold:
  "distinct (map fst tf) \<Longrightarrow> comma_free_string_keys tf \<Longrightarrow>
   (\<forall>((q, s), n) \<in> set tf. py_str q @ '','' @ py_str s \<notin> fst ` set acc) \<Longrightarrow>
   fold (\<lambda>((state, symbol), next_state) d.
           AList.update (py_str state @ '','' @ py_str symbol) next_state d) tf acc
     = acc @ map (\<lambda>((q, s), n). (py_str q @ '','' @ py_str s, n)) tf"
proof (induction tf arbitrary: acc)
  case Nil
  then show ?case by simp
next
  case (Cons x tf)
  obtain l1 l2 n where x: "x = ((l1, l2), n)" by (cases x) auto
  with Cons.prems(2) obtain q s where qs: "l1 = PyStr q" "l2 = PyStr s"
    "CHR '','' \<notin> set q" "CHR '','' \<notin> set s"
    using comma_free_string_keysD [of "x # tf" l1 l2 n] by auto
  have False
    if in_tf: "((l1', l2'), n') \<in> set tf"
      and mem: "py_str l1' @ '','' @ py_str l2' \<in> fst ` set (acc @ [(q @ '','' @ s, n)])"
    for l1' l2' n'
  proof -
    from in_tf Cons.prems(2) obtain q' s' where qs': "l1' = PyStr q'" "l2' = PyStr s'"
      "CHR '','' \<notin> set q'" "CHR '','' \<notin> set s'"
      using comma_free_string_keysD [of "x # tf" l1' l2' n'] by auto
    from in_tf Cons.prems(3) have "py_str l1' @ '','' @ py_str l2' \<notin> fst ` set acc" by auto
    with mem qs' have eq: "q' @ '','' @ s' = q @ '','' @ s" by auto
    from key_inject [OF qs'(3,4) qs(3,4) eq] qs qs' have "(l1', l2') = (l1, l2)" by simp
    with in_tf have "(l1, l2) \<in> fst ` set tf" by (simp add: rev_image_eqI)
    with Cons.prems(1) x show False by simp
  qed
  then have fresh:
    "\<forall>((l1', l2'), n') \<in> set tf.
       py_str l1' @ '','' @ py_str l2' \<notin> fst ` set (acc @ [(q @ '','' @ s, n)])"
    by blast
  from Cons.prems x qs have "q @ '','' @ s \<notin> fst ` set acc" by simp
  then have "AList.update (q @ '','' @ s) n acc = acc @ [(q @ '','' @ s, n)]"
    by (rule update_fresh)
  moreover from Cons.prems have "distinct (map fst tf)" "comma_free_string_keys tf"
    by (simp_all add: comma_free_string_keys_Cons)
  note Cons.IH [OF this fresh]
  ultimately show ?case using x qs by simp
qed

text \<open>Loading such a document splits every key into its two strings again.\<close>

lemma load_map:
  "distinct (map fst tf) \<Longrightarrow> comma_free_string_keys tf \<Longrightarrow>
   (\<forall>k \<in> fst ` set tf. k \<notin> fst ` set acc) \<Longrightarrow>
   load_transitions (map (\<lambda>((q, s), n). (py_str q @ '','' @ py_str s, n)) tf) acc = Inr (acc @ tf)"
proof (induction tf arbitrary: acc)
  case Nil
  then show ?case by simp
next
  case (Cons x tf)
  obtain l1 l2 n where x: "x = ((l1, l2), n)" by (cases x) auto
  with Cons.prems(2) obtain q s where qs: "l1 = PyStr q" "l2 = PyStr s"
    "CHR '','' \<notin> set q" "CHR '','' \<notin> set s"
    using comma_free_string_keysD [of "x # tf" l1 l2 n] by auto
  from qs have split: "str_split CHR '','' (q @ CHR '','' # s) = [q, s]"
    by (intro str_split_key)
  from Cons.prems x have "(l1, l2) \<notin> fst ` set acc" by simp
  then have upd: "AList.update (l1, l2) n acc = acc @ [((l1, l2), n)]"
    by (rule update_fresh)
  have "\<forall>k \<in> fst ` set tf. k \<notin> fst ` set (acc @ [((l1, l2), n)])"
  proof
    fix k assume k: "k \<in> fst ` set tf"
    with Cons.prems(3) have "k \<notin> fst ` set acc" by auto
    moreover from Cons.prems(1) x have "(l1, l2) \<notin> fst ` set tf" by simp
    with k have "k \<noteq> (l1, l2)" by blast
    ultimately show "k \<notin> fst ` set (acc @ [((l1, l2), n)])" by simp
  qed
  moreover from Cons.prems have "distinct (map fst tf)" "comma_free_string_keys tf"
    by (simp_all add: comma_free_string_keys_Cons)
  ultimately have "load_transitions (map (\<lambda>((q, s), n). (py_str q @ '','' @ py_str s, n)) tf)
        (acc @ [((l1, l2), n)])
      = Inr ((acc @ [((l1, l2), n)]) @ tf)"
    using Cons.IH by blast
  with split upd x qs show ?case by simp
qed

text \<open>
  C2, as the code has it. For every automaton with string or integer labels whose
  transition keys all have a string state and a string symbol without a comma (and whose
  transition dict has each key once, as every dict has), loading the saved document
  gives the automaton back, whatever order \<open>to_list\<close> lists the three sets in: the same
  states, alphabet, start state and accept states, and the same transitions.
\<close>

theorem save_load_roundtrip:
  assumes "set (to_list (states a)) = states a"
    and "set (to_list (alphabet a)) = alphabet a"
    and "set (to_list (accept_states a)) = accept_states a"
    and "distinct (map fst (transition_function a))"
    and "comma_free_string_keys (transition_function a)"
  shows "load_from_file (save_to_file to_list a) = Inr a"
proof -
  have "\<forall>((q, s), n) \<in> set (transition_function a).
          py_str q @ '','' @ py_str s \<notin> fst ` set ([] :: (string \<times> py_value) list)"
    by auto
  from save_fold [OF assms(4,5) this]
  have "json_transition_function (save_to_file to_list a) =
          map (\<lambda>((q, s), n). (py_str q @ '','' @ py_str s, n)) (transition_function a)"
    by (simp add: save_to_file_def)
  moreover have "load_transitions
        (map (\<lambda>((q, s), n). (py_str q @ '','' @ py_str s, n)) (transition_function a)) []
      = Inr (transition_function a)"
    using load_map [OF assms(4,5), of "[]"] by simp
  ultimately show ?thesis
    using assms(1-3) by (simp add: load_from_file_def save_to_file_def DFA_init_def)
qed

theorem save_load_roundtrip_witness:
  "set (list_in_order [PyStr ''q0'', PyInt 1, PyStr ''a'', PyStr ''b''] (states mixed_dfa))
     = states mixed_dfa
   \<and> set (list_in_order [PyStr ''q0'', PyInt 1, PyStr ''a'', PyStr ''b''] (alphabet mixed_dfa))
     = alphabet mixed_dfa
   \<and> set (list_in_order [PyStr ''q0'', PyInt 1, PyStr ''a'', PyStr ''b''] (accept_states mixed_dfa))
     = accept_states mixed_dfa
   \<and> distinct (map fst (transition_function mixed_dfa))
   \<and> comma_free_string_keys (transition_function mixed_dfa)
   \<and> load_from_file
       (save_to_file (list_in_order [PyStr ''q0'', PyInt 1, PyStr ''a'', PyStr ''b'']) mixed_dfa)
     = Inr mixed_dfa"
proof -
  let ?order = "list_in_order [PyStr ''q0'', PyInt 1, PyStr ''a'', PyStr ''b'']"
  have 1: "set (?order (states mixed_dfa)) = states mixed_dfa"
    by (auto simp add: mixed_dfa_def list_in_order_def)
  have 2: "set (?order (alphabet mixed_dfa)) = alphabet mixed_dfa"
    by (auto simp add: mixed_dfa_def list_in_order_def)
  have 3: "set (?order (accept_states mixed_dfa)) = accept_states mixed_dfa"
    by (auto simp add: mixed_dfa_def list_in_order_def)
  have 4: "distinct (map fst (transition_function mixed_dfa))" by (simp add: mixed_dfa_def)
  have 5: "comma_free_string_keys (transition_function mixed_dfa)"
    by (simp add: mixed_dfa_def comma_free_string_keys_def)
  from save_load_roundtrip [OF 1 2 3 4 5] 1 2 3 4 5 show ?thesis by blast
qed

text \<open>
  C2 as stated fails, in two ways. \<open>comma_dfa\<close> satisfies the structural invariants, its
  key \<open>(q, ",")\<close> is saved as \<open>"q,,"\<close>, and loading splits that into three parts and
  raises \<^verbatim>\<open>ValueError\<close>. \<open>int_dfa\<close> satisfies them too, its key \<open>(0, 'a')\<close> is saved as
  \<open>"0,a"\<close>, and loading gives the key \<open>('0', 'a')\<close> with a string where the integer was,
  so the loaded automaton has another transition function than the saved one.
\<close>

theorem save_load_comma_or_int_key_fails:
  "start_state comma_dfa \<in> states comma_dfa \<and> accept_states comma_dfa \<subseteq> states comma_dfa
   \<and> transition_function comma_dfa = [((PyStr ''q'', PyStr '',''), PyStr ''q'')]
   \<and> PyStr ''q'' \<in> states comma_dfa \<and> PyStr '','' \<in> alphabet comma_dfa
   \<and> load_from_file (save_to_file (list_in_order [PyStr ''q'', PyStr '','']) comma_dfa) =
       Inl (ValueError ''too many values to unpack (expected 2)'')
   \<and> start_state int_dfa \<in> states int_dfa \<and> accept_states int_dfa \<subseteq> states int_dfa
   \<and> transition_function int_dfa = [((PyInt 0, PyStr ''a''), PyInt 1)]
   \<and> PyInt 0 \<in> states int_dfa \<and> PyStr ''a'' \<in> alphabet int_dfa \<and> PyInt 1 \<in> states int_dfa
   \<and> load_from_file (save_to_file (list_in_order [PyInt 0, PyInt 1, PyStr ''a'']) int_dfa) =
       Inr \<lparr>states = {PyInt 0, PyInt 1}, alphabet = {PyStr ''a''},
            transition_function = [((PyStr ''0'', PyStr ''a''), PyInt 1)],
            start_state = PyInt 0, accept_states = {PyInt 1}\<rparr>
   \<and> load_from_file (save_to_file (list_in_order [PyInt 0, PyInt 1, PyStr ''a'']) int_dfa) \<noteq>
       Inr int_dfa"
proof -
  have comma: "load_from_file (save_to_file (list_in_order [PyStr ''q'', PyStr '','']) comma_dfa) =
       Inl (ValueError ''too many values to unpack (expected 2)'')"
    by (simp add: comma_dfa_def load_from_file_def save_to_file_def)
  have int: "load_from_file (save_to_file (list_in_order [PyInt 0, PyInt 1, PyStr ''a'']) int_dfa) =
       Inr \<lparr>states = {PyInt 0, PyInt 1}, alphabet = {PyStr ''a''},
            transition_function = [((PyStr ''0'', PyStr ''a''), PyInt 1)],
            start_state = PyInt 0, accept_states = {PyInt 1}\<rparr>"
    by (auto simp add: int_dfa_def load_from_file_def save_to_file_def list_in_order_def
        DFA_init_def str_of_int_def digit_char_def)
  have differ: "load_from_file (save_to_file (list_in_order [PyInt 0, PyInt 1, PyStr ''a'']) int_dfa) \<noteq>
       Inr int_dfa"
    unfolding int by (simp add: int_dfa_def)
  show ?thesis
    using comma int differ by (simp add: comma_dfa_def int_dfa_def)
qed

section \<open>The URL transition table\<close>

lemma map_of_fold_update:
  "map_of (fold (\<lambda>c tf. if P c then AList.update (q, [c]) (f c) tf else tf) cs tf0) (q', s) =
     (if q' = q \<and> (\<exists>c\<in>set cs. P c \<and> s = [c]) then Some (f (hd s)) else map_of tf0 (q', s))"
proof (induction cs arbitrary: tf0 q' s rule: rev_induct)
  case Nil
  then show ?case by simp
next
  case (snoc c cs)
  show ?case
    by (auto simp add: snoc.IH update_conv')
qed

lemma map_of_fold_step:
  assumes "\<And>c tf. step c tf = (if P c then AList.update (q, [c]) (f c) tf else tf)"
  shows "map_of (fold step cs tf0) (q', s) =
         (if q' = q \<and> (\<exists>c\<in>set cs. P c \<and> s = [c]) then Some (f (hd s)) else map_of tf0 (q', s))"
proof -
  have "step = (\<lambda>c tf. if P c then AList.update (q, [c]) (f c) tf else tf)"
    by (intro ext) (rule assms)
  then show ?thesis
    by (simp only: map_of_fold_update)
qed

lemma start_lookup:
  "map_of (start_transitions tf) (q, s) =
     (if q = ''start'' \<and> (\<exists>c\<in>set alphabet_literal. s = [c])
      then Some (if hd s = CHR ''h'' then ''scheme'' else ''rejected'')
      else map_of tf (q, s))"
  unfolding start_transitions_def
  by (subst map_of_fold_step [where P = "\<lambda>_. True" and q = "''start''"
        and f = "\<lambda>c. if c = CHR ''h'' then ''scheme'' else ''rejected''"]) auto

lemma scheme_lookup:
  "map_of (scheme_transitions tf) (q, s) =
     (if q = ''scheme'' \<and> (\<exists>c\<in>set alphabet_literal. c \<notin> set ''tps:'' \<and> s = [c]) then Some ''rejected''
      else if q = ''scheme'' \<and> s = '':'' then Some ''scheme_separator''
      else if q = ''scheme'' \<and> s \<in> {''t'', ''p'', ''s''} then Some ''scheme''
      else map_of tf (q, s))"
  unfolding scheme_transitions_def
  by (subst map_of_fold_step [where P = "\<lambda>c. c \<notin> set ''tps:''" and q = "''scheme''"
        and f = "\<lambda>c. ''rejected''"]) (auto simp: update_conv')

lemma scheme_separator_lookup:
  "map_of (scheme_separator_transitions tf) (q, s) =
     (if q = ''scheme_separator'' \<and> (\<exists>c\<in>set alphabet_literal. c \<notin> set ''/:'' \<and> s = [c]) then Some ''authority''
      else if q = ''scheme_separator'' \<and> s = ''/'' then Some ''scheme_separator''
      else map_of tf (q, s))"
  unfolding scheme_separator_transitions_def
  by (subst map_of_fold_step [where P = "\<lambda>c. c \<notin> set ''/:''" and q = "''scheme_separator''"
        and f = "\<lambda>c. ''authority''"]) (auto simp: update_conv')

lemma authority_lookup:
  "map_of (authority_transitions tf) (q, s) =
     (if q = ''authority'' \<and> (\<exists>c\<in>set alphabet_literal. s = [c])
      then Some (if hd s \<in> set authority_literal then ''authority''
                 else if hd s = CHR ''/'' then ''path''
                 else if hd s = CHR ''?'' then ''query''
                 else if hd s = CHR ''#'' then ''fragment'' else ''rejected'')
      else map_of tf (q, s))"
  unfolding authority_transitions_def
  by (subst map_of_fold_step [where P = "\<lambda>_. True" and q = "''authority''"
        and f = "\<lambda>c. if c \<in> set authority_literal then ''authority''
                 else if c = CHR ''/'' then ''path''
                 else if c = CHR ''?'' then ''query''
                 else if c = CHR ''#'' then ''fragment'' else ''rejected''"]) auto


lemma path_lookup:
  "map_of (path_transitions tf) (q, s) =
     (if q = ''path'' \<and> (\<exists>c\<in>set alphabet_literal. s = [c])
      then Some (if hd s \<in> set path_literal then ''path''
                 else if hd s = CHR ''?'' then ''query''
                 else if hd s = CHR ''#'' then ''fragment'' else ''rejected'')
      else map_of tf (q, s))"
  unfolding path_transitions_def
  by (subst map_of_fold_step [where P = "\<lambda>_. True" and q = "''path''"
        and f = "\<lambda>c. if c \<in> set path_literal then ''path''
                 else if c = CHR ''?'' then ''query''
                 else if c = CHR ''#'' then ''fragment'' else ''rejected''"]) auto

lemma query_lookup:
  "map_of (query_transitions tf) (q, s) =
     (if q = ''query'' \<and> (\<exists>c\<in>set alphabet_literal. s = [c])
      then Some (if hd s \<in> set query_literal then ''query''
                 else if hd s = CHR ''#'' then ''fragment'' else ''rejected'')
      else map_of tf (q, s))"
  unfolding query_transitions_def
  by (subst map_of_fold_step [where P = "\<lambda>_. True" and q = "''query''"
        and f = "\<lambda>c. if c \<in> set query_literal then ''query''
                 else if c = CHR ''#'' then ''fragment'' else ''rejected''"]) auto

lemma fragment_lookup:
  "map_of (fragment_transitions tf) (q, s) =
     (if q = ''fragment'' \<and> (\<exists>c\<in>set alphabet_literal. s = [c])
      then Some (if hd s \<in> set fragment_literal then ''fragment'' else ''rejected'')
      else map_of tf (q, s))"
  unfolding fragment_transitions_def
  by (subst map_of_fold_step [where P = "\<lambda>_. True" and q = "''fragment''"
        and f = "\<lambda>c. if c \<in> set fragment_literal then ''fragment'' else ''rejected''"]) auto

lemmas url_lookups = start_lookup scheme_lookup scheme_separator_lookup authority_lookup
  path_lookup query_lookup fragment_lookup

lemma UrlDFA_start:
  "c \<in> set alphabet_literal \<Longrightarrow>
   map_of (transition_function UrlDFA_init) (''start'', [c]) =
     Some (if c = CHR ''h'' then ''scheme'' else ''rejected'')"
  by (auto simp add: UrlDFA_init_def url_lookups)

lemma UrlDFA_scheme:
  "c \<in> set alphabet_literal \<Longrightarrow>
   map_of (transition_function UrlDFA_init) (''scheme'', [c]) =
     Some (if c \<in> set ''tps'' then ''scheme''
           else if c = CHR '':'' then ''scheme_separator'' else ''rejected'')"
  by (auto simp add: UrlDFA_init_def url_lookups)

lemma UrlDFA_scheme_separator:
  "c \<in> set alphabet_literal \<Longrightarrow> c \<noteq> CHR '':'' \<Longrightarrow>
   map_of (transition_function UrlDFA_init) (''scheme_separator'', [c]) =
     Some (if c = CHR ''/'' then ''scheme_separator'' else ''authority'')"
  by (auto simp add: UrlDFA_init_def url_lookups)

lemma UrlDFA_scheme_separator_colon:
  "map_of (transition_function UrlDFA_init) (''scheme_separator'', '':'') = None"
  by (simp add: UrlDFA_init_def url_lookups)

lemma UrlDFA_authority:
  "c \<in> set alphabet_literal \<Longrightarrow>
   map_of (transition_function UrlDFA_init) (''authority'', [c]) =
     Some (if c \<in> set authority_literal then ''authority''
           else if c = CHR ''/'' then ''path''
           else if c = CHR ''?'' then ''query''
           else if c = CHR ''#'' then ''fragment'' else ''rejected'')"
  by (auto simp add: UrlDFA_init_def url_lookups)

lemma UrlDFA_path:
  "c \<in> set alphabet_literal \<Longrightarrow>
   map_of (transition_function UrlDFA_init) (''path'', [c]) =
     Some (if c \<in> set path_literal then ''path''
           else if c = CHR ''?'' then ''query''
           else if c = CHR ''#'' then ''fragment'' else ''rejected'')"
  by (auto simp add: UrlDFA_init_def url_lookups)

lemma UrlDFA_query:
  "c \<in> set alphabet_literal \<Longrightarrow>
   map_of (transition_function UrlDFA_init) (''query'', [c]) =
     Some (if c \<in> set query_literal then ''query''
           else if c = CHR ''#'' then ''fragment'' else ''rejected'')"
  by (auto simp add: UrlDFA_init_def url_lookups)

lemma UrlDFA_fragment:
  "c \<in> set alphabet_literal \<Longrightarrow>
   map_of (transition_function UrlDFA_init) (''fragment'', [c]) =
     Some (if c \<in> set fragment_literal then ''fragment'' else ''rejected'')"
  by (auto simp add: UrlDFA_init_def url_lookups)

lemma UrlDFA_rejected:
  "map_of (transition_function UrlDFA_init) (''rejected'', s) = None"
  by (simp add: UrlDFA_init_def url_lookups)

lemma UrlDFA_alphabet: "([c] \<in> alphabet UrlDFA_init) = (c \<in> set alphabet_literal)"
  by (auto simp add: UrlDFA_init_def iter_str_def)

lemma UrlDFA_start_state: "start_state UrlDFA_init = ''start''"
  by (simp add: UrlDFA_init_def)

lemma UrlDFA_accept_states:
  "accept_states UrlDFA_init = {''authority'', ''path'', ''query'', ''fragment''}"
  by (simp add: UrlDFA_init_def)

lemmas UrlDFA_table = UrlDFA_start UrlDFA_scheme UrlDFA_scheme_separator UrlDFA_authority
  UrlDFA_path UrlDFA_query UrlDFA_fragment UrlDFA_rejected UrlDFA_scheme_separator_colon

lemmas literal_defs = alphabet_literal_def authority_literal_def path_literal_def
  query_literal_def fragment_literal_def

text \<open>
  C3, as the code has it. For every state other than \<open>rejected\<close> and every symbol of the
  alphabet, the pair has an entry in the transition table, except the pair
  \<open>(scheme_separator, ":")\<close>.
\<close>

theorem UrlDFA_total_except_colon:
  "\<forall>q \<in> {''start'', ''scheme'', ''scheme_separator'', ''authority'', ''path'', ''query'', ''fragment''}.
   \<forall>s \<in> alphabet UrlDFA_init.
     (q, s) \<noteq> (''scheme_separator'', '':'') \<longrightarrow>
     map_of (transition_function UrlDFA_init) (q, s) \<noteq> None"
proof (intro ballI impI)
  fix q s
  assume q: "q \<in> {''start'', ''scheme'', ''scheme_separator'', ''authority'', ''path'', ''query'', ''fragment''}"
    and s: "s \<in> alphabet UrlDFA_init"
    and ne: "(q, s) \<noteq> (''scheme_separator'', '':'')"
  from s obtain c where c: "s = [c]" "c \<in> set alphabet_literal"
    by (auto simp add: UrlDFA_init_def iter_str_def)
  have 1: "map_of (transition_function UrlDFA_init) (''start'', s) \<noteq> None"
    using c by (simp only: UrlDFA_start) simp
  have 2: "map_of (transition_function UrlDFA_init) (''scheme'', s) \<noteq> None"
    using c by (simp only: UrlDFA_scheme) simp
  have 3: "map_of (transition_function UrlDFA_init) (''scheme_separator'', s) \<noteq> None"
    if "s \<noteq> '':''"
    using c that by (simp add: UrlDFA_scheme_separator)
  have 4: "map_of (transition_function UrlDFA_init) (''authority'', s) \<noteq> None"
    using c by (simp only: UrlDFA_authority) simp
  have 5: "map_of (transition_function UrlDFA_init) (''path'', s) \<noteq> None"
    using c by (simp only: UrlDFA_path) simp
  have 6: "map_of (transition_function UrlDFA_init) (''query'', s) \<noteq> None"
    using c by (simp only: UrlDFA_query) simp
  have 7: "map_of (transition_function UrlDFA_init) (''fragment'', s) \<noteq> None"
    using c by (simp only: UrlDFA_fragment) simp
  from q ne show "map_of (transition_function UrlDFA_init) (q, s) \<noteq> None"
  proof (elim insertE emptyE)
    assume "q = ''start''" with 1 show ?thesis by simp
  next
    assume "q = ''scheme''" with 2 show ?thesis by simp
  next
    assume *: "q = ''scheme_separator''" and "(q, s) \<noteq> (''scheme_separator'', '':'')"
    then have "s \<noteq> '':''" by (simp only: prod.inject) simp
    from 3 [OF this] * show ?thesis by simp
  next
    assume "q = ''authority''" with 4 show ?thesis by simp
  next
    assume "q = ''path''" with 5 show ?thesis by simp
  next
    assume "q = ''query''" with 6 show ?thesis by simp
  next
    assume "q = ''fragment''" with 7 show ?thesis by simp
  qed
qed

theorem UrlDFA_total_except_colon_witness:
  "''scheme_separator'' \<in> {''start'', ''scheme'', ''scheme_separator'', ''authority'', ''path'', ''query'', ''fragment''}
   \<and> ''/'' \<in> alphabet UrlDFA_init
   \<and> (''scheme_separator'', ''/'') \<noteq> (''scheme_separator'', '':'')
   \<and> map_of (transition_function UrlDFA_init) (''scheme_separator'', ''/'') \<noteq> None"
proof -
  have 1: "''scheme_separator'' \<in> {''start'', ''scheme'', ''scheme_separator'', ''authority'', ''path'', ''query'', ''fragment''}"
    by simp
  have 2: "''/'' \<in> alphabet UrlDFA_init"
    by (simp add: UrlDFA_alphabet alphabet_literal_def)
  have 3: "(''scheme_separator'', ''/'') \<noteq> (''scheme_separator'', '':'')" by simp
  from UrlDFA_total_except_colon [rule_format, OF 1 2 3] 1 2 3 show ?thesis by blast
qed

text \<open>
  C3 as stated fails: the loop for \<open>scheme_separator\<close> skips both \<open>/\<close> and \<open>:\<close>, and
  only \<open>/\<close> is assigned beside it, so \<open>(scheme_separator, ":")\<close> has no entry.
\<close>

theorem UrlDFA_scheme_separator_colon_undefined:
  "''scheme_separator'' \<in> {''start'', ''scheme'', ''scheme_separator'', ''authority'', ''path'', ''query'', ''fragment''}
   \<and> '':'' \<in> alphabet UrlDFA_init
   \<and> map_of (transition_function UrlDFA_init) (''scheme_separator'', '':'') = None"
  by (simp add: UrlDFA_scheme_separator_colon UrlDFA_alphabet alphabet_literal_def)

section \<open>URL validation\<close>


lemma validate_loop_append:
  "validate_loop self cur seq pre = Inr (b, tr) \<Longrightarrow> ''rejected'' \<notin> set tr \<Longrightarrow>
   seq \<noteq> [] \<Longrightarrow> last seq = cur \<Longrightarrow>
   tr \<noteq> [] \<and> length tr = length seq + length pre \<and>
   validate_loop self cur seq (pre @ w) = validate_loop self (last tr) tr w \<and>
   fst (process_loop self cur seq pre) = Inr (b, tr)"
proof (induction pre arbitrary: cur seq)
  case Nil
  then show ?case by auto
next
  case (Cons c pre)
  show ?case
  proof (cases "c \<in> alphabet self \<and> map_of (transition_function self) (cur, c) \<noteq> None")
    case False
    with Cons.prems show ?thesis by (auto split: if_splits)
  next
    case True
    then obtain n where n: "map_of (transition_function self) (cur, c) = Some n" by auto
    with True Cons.prems have ne: "n \<noteq> ''rejected''"
      by (auto simp add: dict_get_def split: if_splits)
    with True n Cons.prems have "validate_loop self n (seq @ [n]) pre = Inr (b, tr)"
      by (simp add: dict_get_def)
    from Cons.IH [OF this Cons.prems(2)] True n ne show ?thesis
      by (simp add: dict_get_def)
  qed
qed

lemma validate_loop_rejected:
  "validate_loop self cur seq w = Inr (b, tr) \<Longrightarrow> ''rejected'' \<notin> set seq \<Longrightarrow>
   ''rejected'' \<notin> set (butlast tr) \<and>
   (''rejected'' \<in> set tr \<longrightarrow> \<not> b \<and> last tr = ''rejected'' \<and>
      validate_loop self cur seq (w @ ext) = Inr (b, tr))"
proof (induction w arbitrary: cur seq)
  case Nil
  then show ?case by (auto dest: in_set_butlastD)
next
  case (Cons c w)
  show ?case
  proof (cases "c \<in> alphabet self \<and> map_of (transition_function self) (cur, c) \<noteq> None")
    case False
    with Cons.prems show ?thesis by (auto split: if_splits)
  next
    case True
    then obtain n where n: "map_of (transition_function self) (cur, c) = Some n" by auto
    show ?thesis
    proof (cases "n = ''rejected''")
      case True
      with \<open>c \<in> alphabet self \<and> _\<close> n Cons.prems show ?thesis
        by (auto simp add: dict_get_def)
    next
      case False
      with True n Cons.prems have "validate_loop self n (seq @ [n]) w = Inr (b, tr)"
        by (simp add: dict_get_def)
      from Cons.IH [OF this] False Cons.prems(2) True n show ?thesis
        by (simp add: dict_get_def)
    qed
  qed
qed

lemma validate_loop_returns:
  "\<exists>b tr. validate_loop self cur seq w = Inr (b, tr)"
proof (induction w arbitrary: cur seq)
  case Nil
  then show ?case by simp
next
  case (Cons c w)
  show ?case
  proof (cases "map_of (transition_function self) (cur, c)")
    case None
    then show ?thesis by auto
  next
    case (Some n)
    with Cons.IH [of n "seq @ [n]"] show ?thesis
      by (auto simp add: dict_get_def)
  qed
qed

text \<open>
  C8. On \<^verbatim>\<open>https://example.com/path?q=1#frag\<close> the URL automaton accepts, and the trace
  ends in \<open>fragment\<close>; \<^verbatim>\<open>validate_url\<close> and \<^verbatim>\<open>process_string\<close> on the same table agree.
\<close>

theorem validate_url_example:
  "validate_url UrlDFA_init (iter_str ''https://example.com/path?q=1#frag'') =
     Inr (True, [''start'', ''scheme'', ''scheme'', ''scheme'', ''scheme'', ''scheme'',
                 ''scheme_separator'', ''scheme_separator'', ''scheme_separator'',
                 ''authority'', ''authority'', ''authority'', ''authority'', ''authority'',
                 ''authority'', ''authority'', ''authority'', ''authority'', ''authority'',
                 ''authority'', ''path'', ''path'', ''path'', ''path'', ''path'',
                 ''query'', ''query'', ''query'', ''query'',
                 ''fragment'', ''fragment'', ''fragment'', ''fragment'', ''fragment''])
   \<and> (\<exists>tr. validate_url UrlDFA_init (iter_str ''https://example.com/path?q=1#frag'')
              = Inr (True, tr)
            \<and> fst (process_string UrlDFA_init (iter_str ''https://example.com/path?q=1#frag''))
              = Inr (True, tr)
            \<and> last tr = ''fragment'')"
proof -
  have run: "validate_url UrlDFA_init (iter_str ''https://example.com/path?q=1#frag'') =
     Inr (True, [''start'', ''scheme'', ''scheme'', ''scheme'', ''scheme'', ''scheme'',
                 ''scheme_separator'', ''scheme_separator'', ''scheme_separator'',
                 ''authority'', ''authority'', ''authority'', ''authority'', ''authority'',
                 ''authority'', ''authority'', ''authority'', ''authority'', ''authority'',
                 ''authority'', ''path'', ''path'', ''path'', ''path'', ''path'',
                 ''query'', ''query'', ''query'', ''query'',
                 ''fragment'', ''fragment'', ''fragment'', ''fragment'', ''fragment''])"
    (is "_ = Inr (True, ?T)")
    by (simp add: validate_url_def iter_str_def dict_get_def UrlDFA_alphabet UrlDFA_table
        UrlDFA_start_state UrlDFA_accept_states literal_defs)
  then have "fst (process_string UrlDFA_init (iter_str ''https://example.com/path?q=1#frag''))
      = Inr (True, ?T)"
    using validate_loop_append [of UrlDFA_init "start_state UrlDFA_init" "[start_state UrlDFA_init]"
        "iter_str ''https://example.com/path?q=1#frag''" True ?T "[]"]
    by (simp add: validate_url_def process_string_def)
  with run show ?thesis by simp
qed



text \<open>
  C10. For an automaton whose start state is not \<open>rejected\<close>, as the URL automaton's is
  not, \<^verbatim>\<open>validate_url\<close> always returns, and in the returned trace \<open>rejected\<close> occurs at
  most once and nowhere but in the last position; when it occurs the verdict is \<open>False\<close>
  and nothing after that point of the input is looked at: any longer input with the same
  beginning gives the same result.
\<close>

theorem validate_url_rejected_last:
  assumes "start_state self \<noteq> ''rejected''"
  shows "\<exists>b tr. validate_url self url = Inr (b, tr)
           \<and> ''rejected'' \<notin> set (butlast tr)
           \<and> count_list tr ''rejected'' \<le> 1
           \<and> (''rejected'' \<in> set tr \<longrightarrow>
                \<not> b \<and> last tr = ''rejected'' \<and> validate_url self (url @ ext) = Inr (b, tr))"
proof -
  obtain b tr where run: "validate_loop self (start_state self) [start_state self] url = Inr (b, tr)"
    using validate_loop_returns by blast
  from assms have "''rejected'' \<notin> set [start_state self]" by simp
  note rej = validate_loop_rejected [OF run this, of ext]
  have "count_list tr ''rejected'' \<le> 1"
  proof (cases tr rule: rev_cases)
    case Nil
    then show ?thesis by simp
  next
    case (snoc ys y)
    with rej have "''rejected'' \<notin> set ys" by simp
    then have "count_list ys ''rejected'' = 0" by (simp add: count_list_0_iff)
    with snoc show ?thesis by simp
  qed
  with run rej show ?thesis
    by (simp add: validate_url_def)
qed

theorem validate_url_rejected_last_witness:
  "start_state UrlDFA_init \<noteq> ''rejected''
   \<and> validate_url UrlDFA_init (iter_str ''ftp'') = Inr (False, [''start'', ''rejected''])
   \<and> ''rejected'' \<in> set [''start'', ''rejected'']
   \<and> ''rejected'' \<notin> set (butlast [''start'', ''rejected''])
   \<and> count_list [''start'', ''rejected''] ''rejected'' \<le> 1
   \<and> last [''start'', ''rejected''] = ''rejected''
   \<and> validate_url UrlDFA_init (iter_str ''ftp'' @ iter_str ''://x.com'') =
       Inr (False, [''start'', ''rejected''])"
proof -
  have 1: "start_state UrlDFA_init \<noteq> ''rejected''"
    by (simp add: UrlDFA_start_state)
  have 2: "validate_url UrlDFA_init (iter_str ''ftp'') = Inr (False, [''start'', ''rejected''])"
    by (simp add: validate_url_def iter_str_def dict_get_def UrlDFA_alphabet UrlDFA_table
        UrlDFA_start_state UrlDFA_accept_states literal_defs)
  from validate_url_rejected_last [OF 1, of "iter_str ''ftp''" "iter_str ''://x.com''"]
  obtain b tr where run: "validate_url UrlDFA_init (iter_str ''ftp'') = Inr (b, tr)"
    and once: "''rejected'' \<notin> set (butlast tr)" "count_list tr ''rejected'' \<le> 1"
    and stop: "''rejected'' \<in> set tr \<longrightarrow>
         \<not> b \<and> last tr = ''rejected'' \<and>
         validate_url UrlDFA_init (iter_str ''ftp'' @ iter_str ''://x.com'') = Inr (b, tr)"
    by blast
  from run 2 have eq: "b = False" "tr = [''start'', ''rejected'']" by simp_all
  from once stop 1 2 show ?thesis unfolding eq by simp
qed

end
